theory Spec2Isabelle
  imports Main "HOL-Library.Word"
begin

unbundle bit_operations_syntax

section \<open>The game ledger \<open>MEGAETH2048\<close>\<close>

subsection \<open>Solidity value types\<close>

type_synonym bytes32 = "256 word"
type_synonym address = "160 word"
type_synonym uint256 = "256 word"
type_synonym uint128 = "128 word"
type_synonym uint120 = "120 word"
type_synonym uint8 = "8 word"

text \<open>The fixed-size calldata arrays \<open>uint128[4]\<close> and \<open>uint8[3]\<close>; the ABI decoder
  admits no other length, so they are tuples. The contract only reads them at the
  constant or loop indices below.\<close>

type_synonym boards4 = "uint128 \<times> uint128 \<times> uint128 \<times> uint128"
type_synonym moves3 = "uint8 \<times> uint8 \<times> uint8"

fun board_at :: "boards4 \<Rightarrow> nat \<Rightarrow> uint128" where
  "board_at (b0, b1, b2, b3) i =
     (if i = 0 then b0 else if i = 1 then b1 else if i = 2 then b2 else b3)"

fun move_at :: "moves3 \<Rightarrow> nat \<Rightarrow> uint8" where
  "move_at (m0, m1, m2) i = (if i = 0 then m0 else if i = 1 then m1 else m2)"

subsection \<open>Storage, events and errors\<close>

record GameState =
  move :: uint8
  nextMove :: uint120
  board :: uint128

datatype event =
    NewGame address bytes32 uint256
  | NewMove address bytes32 uint256 uint256
  | MoveConfirmed address bytes32 uint256 uint256

text \<open>The errors the \<open>Board\<close> library may raise inside a call; a revert of the library
  call reverts the calling transaction.\<close>

datatype board_error = IndexOutOfRange | ExponentOutOfRange | NoEmptyCell

datatype error =
    GameIdUsed
  | GamePlayed
  | GameBoardInvalid
  | GamePlayerInvalid
  | ArithmeticOverflow
  | BoardReverted board_error

text \<open>The three storage mappings of the contract (a Solidity mapping is total and
  reads zero at a key never written) together with the event log of the chain.\<close>

record ledger =
  state :: "bytes32 \<Rightarrow> GameState"
  gameHashOf :: "bytes32 \<Rightarrow> bytes32"
  moveConfirmed :: "bytes32 \<Rightarrow> uint256 \<Rightarrow> bool"
  events :: "event list"

definition zeroGameState :: GameState where
  "zeroGameState = \<lparr>move = 0, nextMove = 0, board = 0\<rparr>"

definition emptyLedger :: ledger where
  "emptyLedger = \<lparr>state = (\<lambda>_. zeroGameState), gameHashOf = (\<lambda>_. 0),
     moveConfirmed = (\<lambda>_ _. False), events = []\<rparr>"

subsection \<open>What the contract calls but does not define\<close>

text \<open>\<open>keccak256\<close> is a primitive of the execution environment, and the two \<open>Board\<close>
  functions live in \<open>LibBoard.sol\<close>. The ledger is verified for every choice of them.\<close>

record externals =
  keccak256 :: "uint8 list \<Rightarrow> bytes32"
  validateStartPosition :: "uint128 \<Rightarrow> board_error + bool"
  validateTransformation :: "uint128 \<Rightarrow> uint8 \<Rightarrow> uint128 \<Rightarrow> uint256 \<Rightarrow> board_error + bool"

text \<open>\<open>abi.encodePacked\<close>: a 32-byte value is its 32 bytes, most significant first;
  the elements of an array are each padded to 32 bytes.\<close>

definition bytes_of_word :: "256 word \<Rightarrow> uint8 list" where
  "bytes_of_word w = map (\<lambda>k. ucast (drop_bit (8 * (31 - k)) w)) [0..<32]"

definition encodePacked2 :: "bytes32 \<Rightarrow> uint256 \<Rightarrow> uint8 list" where
  "encodePacked2 gameId n = bytes_of_word gameId @ bytes_of_word n"

fun encodePackedBoards :: "boards4 \<Rightarrow> uint8 list" where
  "encodePackedBoards (b0, b1, b2, b3) =
     bytes_of_word (ucast b0) @ bytes_of_word (ucast b1) @
     bytes_of_word (ucast b2) @ bytes_of_word (ucast b3)"

subsection \<open>Modifier and views\<close>

definition principal :: "bytes32 \<Rightarrow> address" where
  "principal gameId = ucast (drop_bit 96 gameId)"

definition correctGameId :: "address \<Rightarrow> bytes32 \<Rightarrow> bool" where
  "correctGameId player gameId \<longleftrightarrow> player = principal gameId"

definition nextMoveOf :: "ledger \<Rightarrow> bytes32 \<Rightarrow> uint120" where
  "nextMoveOf s gameId = nextMove (state s gameId)"

definition latestBoard :: "ledger \<Rightarrow> bytes32 \<Rightarrow> uint128" where
  "latestBoard s gameId = board (state s gameId)"

definition isMoveConfirmed :: "ledger \<Rightarrow> bytes32 \<Rightarrow> uint256 \<Rightarrow> bool" where
  "isMoveConfirmed s gameId moveNumber = moveConfirmed s gameId moveNumber"

definition calculateSeed :: "externals \<Rightarrow> bytes32 \<Rightarrow> uint256 \<Rightarrow> uint256" where
  "calculateSeed E gameId moveNumber = keccak256 E (encodePacked2 gameId moveNumber)"

text \<open>The seed derivation in the words of the specification (section 6): the hash of
  the concatenation of the identifier and the move number. \<open>calculateSeed\<close> above is the
  function of the contract.\<close>

definition seedFor :: "externals \<Rightarrow> bytes32 \<Rightarrow> uint256 \<Rightarrow> uint256" where
  "seedFor E identifier moveNumber =
     keccak256 E (bytes_of_word identifier @ bytes_of_word moveNumber)"

subsection \<open>\<open>startGame\<close>\<close>

text \<open>A \<open>require\<close> on the result of a library call.\<close>

definition require_board :: "board_error + bool \<Rightarrow> error + unit" where
  "require_board r =
     (case r of Inl e \<Rightarrow> Inl (BoardReverted e)
      | Inr ok \<Rightarrow> if ok then Inr () else Inl GameBoardInvalid)"

text \<open>The loop \<open>for (uint256 i = 1; i < 4; i++)\<close> over the three opening moves.\<close>

function checkTransformations ::
  "externals \<Rightarrow> bytes32 \<Rightarrow> boards4 \<Rightarrow> moves3 \<Rightarrow> nat \<Rightarrow> error + unit" where
  "checkTransformations E gameId boards moves i =
     (if i < 4 then
        (case require_board
                (validateTransformation E (board_at boards (i - 1)) (move_at moves (i - 1))
                   (board_at boards i) (keccak256 E (encodePacked2 gameId (of_nat i)))) of
           Inl e \<Rightarrow> Inl e
         | Inr _ \<Rightarrow> checkTransformations E gameId boards moves (i + 1))
      else Inr ())"
  by pat_completeness auto
termination
  by (relation "measure (\<lambda>(E, gameId, boards, moves, i). 4 - i)") auto

declare checkTransformations.simps [simp del]

text \<open>The loop \<open>for (uint256 i = 1; i <= 3; i++) moveConfirmed[gameId][i] = true\<close>.\<close>

function confirmMoves :: "bytes32 \<Rightarrow> nat \<Rightarrow> ledger \<Rightarrow> ledger" where
  "confirmMoves gameId i s =
     (if i \<le> 3 then
        confirmMoves gameId (i + 1)
          (s\<lparr>moveConfirmed := (moveConfirmed s)(gameId := (moveConfirmed s gameId)(of_nat i := True))\<rparr>)
      else s)"
  by pat_completeness auto
termination
  by (relation "measure (\<lambda>(gameId, i, s). 4 - i)") auto

declare confirmMoves.simps [simp del]

definition startGame ::
  "externals \<Rightarrow> address \<Rightarrow> uint256 \<Rightarrow> ledger \<Rightarrow> bytes32 \<Rightarrow> boards4 \<Rightarrow> moves3 \<Rightarrow> error + ledger" where
  "startGame E sender blockNumber s gameId boards moves =
     (if \<not> correctGameId sender gameId then Inl GamePlayerInvalid
      else if board (state s gameId) \<noteq> 0 then Inl GameIdUsed
      else
        let hashedBoards = keccak256 E (encodePackedBoards boards) in
        if gameHashOf s hashedBoards \<noteq> 0 then Inl GamePlayed
        else
          (case require_board (validateStartPosition E (board_at boards 0)) of
             Inl e \<Rightarrow> Inl e
           | Inr _ \<Rightarrow>
              (case checkTransformations E gameId boards moves 1 of
                 Inl e \<Rightarrow> Inl e
               | Inr _ \<Rightarrow>
                  let s1 = s\<lparr>gameHashOf := (gameHashOf s)(hashedBoards := gameId)\<rparr>;
                      s2 = confirmMoves gameId 1 s1;
                      s3 = s2\<lparr>state := (state s2)(gameId :=
                             \<lparr>move = move_at moves 2, nextMove = 4, board = board_at boards 3\<rparr>)\<rparr>
                  in Inr (s3\<lparr>events := events s3 @
                            [NewGame sender gameId (ucast (board_at boards 3)),
                             MoveConfirmed sender gameId 3 blockNumber]\<rparr>))))"

subsection \<open>\<open>play\<close>\<close>

text \<open>\<open>latestState.nextMove + 1\<close> is checked \<open>uint120\<close> arithmetic: it reverts at the
  largest value instead of wrapping.\<close>

definition checked_inc :: "uint120 \<Rightarrow> error + uint120" where
  "checked_inc n = (if n = - 1 then Inl ArithmeticOverflow else Inr (n + 1))"

definition play ::
  "externals \<Rightarrow> address \<Rightarrow> uint256 \<Rightarrow> ledger \<Rightarrow> bytes32 \<Rightarrow> uint8 \<Rightarrow> uint128 \<Rightarrow> error + ledger" where
  "play E sender blockNumber s gameId mv resultBoard =
     (if \<not> correctGameId sender gameId then Inl GamePlayerInvalid
      else
        let latestState = state s gameId in
        (case require_board
                (validateTransformation E (board latestState) mv resultBoard
                   (keccak256 E (encodePacked2 gameId (ucast (nextMove latestState))))) of
           Inl e \<Rightarrow> Inl e
         | Inr _ \<Rightarrow>
            let currentMoveNumber = (ucast (nextMove latestState) :: uint256) in
            (case checked_inc (nextMove latestState) of
               Inl e \<Rightarrow> Inl e
             | Inr n' \<Rightarrow>
                let s1 = s\<lparr>state := (state s)(gameId :=
                           \<lparr>move = mv, nextMove = n', board = resultBoard\<rparr>)\<rparr>;
                    s2 = s1\<lparr>moveConfirmed := (moveConfirmed s1)(gameId :=
                           (moveConfirmed s1 gameId)(currentMoveNumber := True))\<rparr>
                in Inr (s2\<lparr>events := events s2 @
                          [NewMove sender gameId (ucast mv) (ucast resultBoard),
                           MoveConfirmed sender gameId currentMoveNumber blockNumber]\<rparr>))))"

subsection \<open>Transactions\<close>

text \<open>A transaction that reverts leaves the chain as it found it; one that returns
  commits the storage and the log it produced.\<close>

datatype call =
    StartGame address uint256 bytes32 boards4 moves3
  | Play address uint256 bytes32 uint8 uint128

fun run :: "externals \<Rightarrow> ledger \<Rightarrow> call \<Rightarrow> error + ledger" where
  "run E s (StartGame sender blockNumber gameId boards moves) =
     startGame E sender blockNumber s gameId boards moves"
| "run E s (Play sender blockNumber gameId mv resultBoard) =
     play E sender blockNumber s gameId mv resultBoard"

definition transact :: "externals \<Rightarrow> ledger \<Rightarrow> call \<Rightarrow> ledger" where
  "transact E s c = (case run E s c of Inl _ \<Rightarrow> s | Inr s' \<Rightarrow> s')"

definition transactAll :: "externals \<Rightarrow> ledger \<Rightarrow> call list \<Rightarrow> ledger" where
  "transactAll E s cs = foldl (transact E) s cs"

subsection \<open>What a successful call commits\<close>

text \<open>The ledger after a \<open>startGame\<close> and after a \<open>play\<close> that returned, written as
  one record update; \<open>startGame_Inr_iff\<close> and \<open>play_Inr_iff\<close> below prove that these
  are the ledgers the two functions return.\<close>

definition started :: "address \<Rightarrow> uint256 \<Rightarrow> ledger \<Rightarrow> externals \<Rightarrow> bytes32 \<Rightarrow> boards4 \<Rightarrow> moves3 \<Rightarrow> ledger" where
  "started sender blockNumber s E gameId boards moves =
     s\<lparr>state := (state s)(gameId :=
          \<lparr>move = move_at moves 2, nextMove = 4, board = board_at boards 3\<rparr>),
       gameHashOf := (gameHashOf s)(keccak256 E (encodePackedBoards boards) := gameId),
       moveConfirmed := (moveConfirmed s)(gameId :=
          (moveConfirmed s gameId)(1 := True, 2 := True, 3 := True)),
       events := events s @ [NewGame sender gameId (ucast (board_at boards 3)),
                             MoveConfirmed sender gameId 3 blockNumber]\<rparr>"

definition played :: "address \<Rightarrow> uint256 \<Rightarrow> ledger \<Rightarrow> bytes32 \<Rightarrow> uint8 \<Rightarrow> uint128 \<Rightarrow> ledger" where
  "played sender blockNumber s gameId mv resultBoard =
     s\<lparr>state := (state s)(gameId :=
          \<lparr>move = mv, nextMove = nextMove (state s gameId) + 1, board = resultBoard\<rparr>),
       moveConfirmed := (moveConfirmed s)(gameId :=
          (moveConfirmed s gameId)(ucast (nextMove (state s gameId)) := True)),
       events := events s @ [NewMove sender gameId (ucast mv) (ucast resultBoard),
                   MoveConfirmed sender gameId (ucast (nextMove (state s gameId))) blockNumber]\<rparr>"


subsection \<open>A concrete run\<close>

text \<open>An instance of the externals on which the ledger can be run: the hash of a byte
  string is its length, a start position is any non-zero board, and a transformation is
  any change of the board into a non-zero board. Player 1 owns the identifiers whose upper 160 bits are 1.\<close>

definition laxExternals :: externals where
  "laxExternals =
     \<lparr>keccak256 = (\<lambda>bs. of_nat (length bs)),
      validateStartPosition = (\<lambda>b. Inr (b \<noteq> 0)),
      validateTransformation = (\<lambda>prev mv next seed. Inr (next \<noteq> prev \<and> next \<noteq> 0))\<rparr>"

definition alice :: address where
  "alice = 1"

definition aliceGame :: bytes32 where
  "aliceGame = push_bit 96 (ucast alice) OR ucast (7 :: 96 word)"

definition aliceGame2 :: bytes32 where
  "aliceGame2 = push_bit 96 (ucast alice) OR ucast (8 :: 96 word)"

definition openingBoards :: boards4 where
  "openingBoards = (1, 2, 3, 4)"

definition openingMoves :: moves3 where
  "openingMoves = (0, 1, 2)"

definition afterStart :: ledger where
  "afterStart = started alice 9 emptyLedger laxExternals aliceGame openingBoards openingMoves"

definition afterPlay :: ledger where
  "afterPlay = played alice 10 afterStart aliceGame 3 5"

text \<open>The ledger after the zero address has started a game under the identifier 0.\<close>

definition zeroStart :: ledger where
  "zeroStart = started 0 9 emptyLedger laxExternals 0 openingBoards openingMoves"

section \<open>The \<open>Board\<close> library\<close>

text \<open>\<open>LibBoard.sol\<close>, the library behind \<open>Board.validateTransformation\<close>,
  \<open>Board.validateStartPosition\<close> and \<open>Board.getTile\<close>, is not among the sources; only its
  callers in the contract are. The definitions of this section follow sections 3 and 4.1
  to 4.4 of the specification: sixteen 8-bit exponent
  fields in a 128-bit word, field \<open>i\<close> at bit offset \<open>8 * i\<close>; the classic shift and merge
  along the four lines of a move; a spawn in the empty cell numbered \<open>seed mod n\<close> of the
  \<open>n\<close> empty cells. The derivation of the spawned exponent from the seed is left open by
  the specification and is a parameter (\<open>spawnsFour\<close>).\<close>

text \<open>Modelled from the spec: the move of section 3, an enumerated direction (the
  numbering of \<open>LibBoard.sol\<close> is missing).\<close>

datatype Move = Up | Down | Left | Right

text \<open>Modelled from the spec: the missing \<open>Board.getTile\<close> (section 4.1). \<open>tileAt\<close> is the
  field read itself, \<open>getTile\<close> adds the range check on the index.\<close>

definition tileAt :: "uint128 \<Rightarrow> nat \<Rightarrow> nat" where
  "tileAt b i = unat (take_bit 8 (drop_bit (8 * i) b))"

definition getTile :: "uint128 \<Rightarrow> nat \<Rightarrow> board_error + nat" where
  "getTile b i = (if 16 \<le> i then Inl IndexOutOfRange else Inr (tileAt b i))"

text \<open>Modelled from the spec: the missing \<open>setTile\<close> (section 4.1), which replaces one
  field and fails on an exponent wider than the field.\<close>

definition setTile :: "uint128 \<Rightarrow> nat \<Rightarrow> nat \<Rightarrow> board_error + uint128" where
  "setTile b i e =
     (if 256 \<le> e then Inl ExponentOutOfRange
      else Inr ((b AND NOT (push_bit (8 * i) 255)) OR push_bit (8 * i) (of_nat e)))"

text \<open>Modelled from the spec: the missing \<open>isEmpty\<close> (section 4.1).\<close>

definition isEmpty :: "uint128 \<Rightarrow> nat \<Rightarrow> bool" where
  "isEmpty b i \<longleftrightarrow> tileAt b i = 0"

text \<open>Modelled from the spec: the four lines of a move (section 4.2, step 1), each
  listed from its leading edge; the grid is row-major.\<close>

fun lineCells :: "Move \<Rightarrow> nat \<Rightarrow> nat list" where
  "lineCells Left k = [4 * k, 4 * k + 1, 4 * k + 2, 4 * k + 3]"
| "lineCells Right k = [4 * k + 3, 4 * k + 2, 4 * k + 1, 4 * k]"
| "lineCells Up k = [k, k + 4, k + 8, k + 12]"
| "lineCells Down k = [k + 12, k + 8, k + 4, k]"

text \<open>Modelled from the spec: the walk from the leading edge (section 4.2, step 2); two
  equal neighbours become one tile of the next exponent, which is not merged again.\<close>

fun mergeLine :: "nat list \<Rightarrow> nat list" where
  "mergeLine (x # y # rest) =
     (if x = y then (x + 1) # mergeLine rest else x # mergeLine (y # rest))"
| "mergeLine xs = xs"

text \<open>Modelled from the spec: extraction of the non-empty tiles, merge and compaction of
  one line (section 4.2, steps 1 to 3).\<close>

definition slideLine :: "nat list \<Rightarrow> nat list" where
  "slideLine l =
     (let m = mergeLine (filter (\<lambda>e. e \<noteq> 0) l) in m @ replicate (length l - length m) 0)"

text \<open>Modelled from the spec: reassembly of the lines into a board (section 4.2, step 4),
  through \<open>setTile\<close>.\<close>

fun setTiles :: "uint128 \<Rightarrow> (nat \<times> nat) list \<Rightarrow> board_error + uint128" where
  "setTiles b [] = Inr b"
| "setTiles b ((i, e) # rest) =
     (case setTile b i e of Inl err \<Rightarrow> Inl err | Inr b' \<Rightarrow> setTiles b' rest)"

definition slidCells :: "uint128 \<Rightarrow> Move \<Rightarrow> (nat \<times> nat) list" where
  "slidCells b mv =
     concat (map (\<lambda>k. zip (lineCells mv k) (slideLine (map (tileAt b) (lineCells mv k)))) [0..<4])"

text \<open>Modelled from the spec: the empty cells of a board, in index order (sections 4.2
  and 4.3).\<close>

definition emptyCells :: "uint128 \<Rightarrow> nat list" where
  "emptyCells b = filter (isEmpty b) [0..<16]"

text \<open>Modelled from the spec: the missing move simulator \<open>simulateMove\<close> (section 4.2). It
  returns the board before the spawn, whether any cell changed, and the empty cells.\<close>

definition simulateMove :: "uint128 \<Rightarrow> Move \<Rightarrow> board_error + (uint128 \<times> bool \<times> nat list)" where
  "simulateMove b mv =
     (case setTiles b (slidCells b mv) of
        Inl err \<Rightarrow> Inl err
      | Inr r \<Rightarrow> Inr (r, list_ex (\<lambda>i. tileAt r i \<noteq> tileAt b i) [0..<16], emptyCells r))"

text \<open>Modelled from the spec: the missing spawn oracle \<open>chooseSpawn\<close> (section 4.3).\<close>

definition chooseSpawn :: "(uint256 \<Rightarrow> bool) \<Rightarrow> uint128 \<Rightarrow> uint256 \<Rightarrow> board_error + (nat \<times> nat)" where
  "chooseSpawn spawnsFour b seed =
     (let cells = emptyCells b in
      if cells = [] then Inl NoEmptyCell
      else Inr (cells ! (unat seed mod length cells), if spawnsFour seed then 2 else 1))"

text \<open>Modelled from the spec: the missing \<open>Board.validateTransformation\<close>, which the
  specification calls \<open>validateTransition\<close> (section 4.4).\<close>

definition validateTransition ::
  "(uint256 \<Rightarrow> bool) \<Rightarrow> uint128 \<Rightarrow> Move \<Rightarrow> uint128 \<Rightarrow> uint256 \<Rightarrow> board_error + bool" where
  "validateTransition spawnsFour prevBoard mv claimedResultBoard seed =
     (case simulateMove prevBoard mv of
        Inl err \<Rightarrow> Inl err
      | Inr (post, merged, cells) \<Rightarrow>
          if \<not> merged then Inr False
          else
            (case chooseSpawn spawnsFour post seed of
               Inl err \<Rightarrow> Inl err
             | Inr (i, e) \<Rightarrow>
                (case setTile post i e of
                   Inl err \<Rightarrow> Inl err
                 | Inr canonical \<Rightarrow> Inr (claimedResultBoard = canonical))))"






section \<open>Properties of the ledger\<close>

subsection \<open>The two loops, unrolled\<close>

lemma require_board_ok: "require_board r = Inr u \<longleftrightarrow> r = Inr True"
  by (auto simp: require_board_def split: sum.splits)

lemma require_then_ok:
  "(case require_board r of Inl e \<Rightarrow> Inl e | Inr _ \<Rightarrow> k) = Inr u \<longleftrightarrow> r = Inr True \<and> k = Inr u"
  by (cases r) (auto simp: require_board_def)

lemma checkTransformations_from_4: "checkTransformations E g b m 4 = Inr ()"
  by (subst checkTransformations.simps) simp

lemma checkTransformations_from_3:
  "checkTransformations E g b m 3 =
     require_board (validateTransformation E (board_at b 2) (move_at m 2) (board_at b 3)
        (calculateSeed E g 3))"
  by (rule trans [OF checkTransformations.simps])
     (simp add: checkTransformations_from_4 calculateSeed_def split: sum.split)

lemma checkTransformations_from_2:
  "checkTransformations E g b m 2 =
     (case require_board (validateTransformation E (board_at b 1) (move_at m 1) (board_at b 2)
        (calculateSeed E g 2)) of
        Inl e \<Rightarrow> Inl e | Inr _ \<Rightarrow> checkTransformations E g b m 3)"
  by (rule trans [OF checkTransformations.simps])
     (simp add: calculateSeed_def cong: sum.case_cong)

lemma checkTransformations_from_1:
  "checkTransformations E g b m 1 =
     (case require_board (validateTransformation E (board_at b 0) (move_at m 0) (board_at b 1)
        (calculateSeed E g 1)) of
        Inl e \<Rightarrow> Inl e | Inr _ \<Rightarrow> checkTransformations E g b m 2)"
  by (rule trans [OF checkTransformations.simps])
     (simp add: calculateSeed_def numeral_2_eq_2 [symmetric] cong: sum.case_cong)

lemma checkTransformations_ok:
  "checkTransformations E g b m 1 = Inr u \<longleftrightarrow>
     validateTransformation E (board_at b 0) (move_at m 0) (board_at b 1) (calculateSeed E g 1) = Inr True \<and>
     validateTransformation E (board_at b 1) (move_at m 1) (board_at b 2) (calculateSeed E g 2) = Inr True \<and>
     validateTransformation E (board_at b 2) (move_at m 2) (board_at b 3) (calculateSeed E g 3) = Inr True"
  unfolding checkTransformations_from_1 checkTransformations_from_2 checkTransformations_from_3
  by (simp only: require_then_ok require_board_ok)

lemma confirmMoves_from_4: "confirmMoves g 4 s = s"
  by (subst confirmMoves.simps) simp

lemma confirmMoves_1:
  "confirmMoves g 1 s =
     s\<lparr>moveConfirmed := (moveConfirmed s)(g := (moveConfirmed s g)(1 := True, 2 := True, 3 := True))\<rparr>"
proof -
  have "confirmMoves g 1 s = confirmMoves g 2 (s\<lparr>moveConfirmed := (moveConfirmed s)(g := (moveConfirmed s g)(1 := True))\<rparr>)"
    by (rule trans [OF confirmMoves.simps]) (simp add: numeral_2_eq_2 [symmetric])
  also have "\<dots> = confirmMoves g 3 (s\<lparr>moveConfirmed := (moveConfirmed s)(g := (moveConfirmed s g)(1 := True, 2 := True))\<rparr>)"
    by (rule trans [OF confirmMoves.simps]) simp
  also have "\<dots> = confirmMoves g 4 (s\<lparr>moveConfirmed := (moveConfirmed s)(g := (moveConfirmed s g)(1 := True, 2 := True, 3 := True))\<rparr>)"
    by (rule trans [OF confirmMoves.simps]) simp
  finally show ?thesis by (simp add: confirmMoves_from_4)
qed

subsection \<open>When a call returns, and what it returns\<close>

lemma startGame_Inr_iff:
  "startGame E sender bn s g b m = Inr s' \<longleftrightarrow>
     correctGameId sender g \<and> board (state s g) = 0 \<and>
     gameHashOf s (keccak256 E (encodePackedBoards b)) = 0 \<and>
     validateStartPosition E (board_at b 0) = Inr True \<and>
     validateTransformation E (board_at b 0) (move_at m 0) (board_at b 1) (calculateSeed E g 1) = Inr True \<and>
     validateTransformation E (board_at b 1) (move_at m 1) (board_at b 2) (calculateSeed E g 2) = Inr True \<and>
     validateTransformation E (board_at b 2) (move_at m 2) (board_at b 3) (calculateSeed E g 3) = Inr True \<and>
     s' = started sender bn s E g b m"
proof (cases "require_board (validateStartPosition E (board_at b 0))")
  case (Inl e)
  then have "validateStartPosition E (board_at b 0) \<noteq> Inr True"
    by (auto simp: require_board_def)
  with Inl show ?thesis by (simp add: startGame_def Let_def)
next
  case (Inr u)
  then have sp: "validateStartPosition E (board_at b 0) = Inr True"
    by (simp add: require_board_ok)
  show ?thesis
  proof (cases "checkTransformations E g b m 1")
    case (Inl e)
    then have "\<not> (checkTransformations E g b m 1 = Inr ())" by simp
    then have "\<not> (validateTransformation E (board_at b 0) (move_at m 0) (board_at b 1) (calculateSeed E g 1) = Inr True \<and>
     validateTransformation E (board_at b 1) (move_at m 1) (board_at b 2) (calculateSeed E g 2) = Inr True \<and>
     validateTransformation E (board_at b 2) (move_at m 2) (board_at b 3) (calculateSeed E g 3) = Inr True)"
      by (simp only: checkTransformations_ok not_False_eq_True)
    with Inl \<open>require_board _ = Inr u\<close> show ?thesis
      by (auto simp: startGame_def Let_def)
  next
    case ct: (Inr v)
    then have "validateTransformation E (board_at b 0) (move_at m 0) (board_at b 1) (calculateSeed E g 1) = Inr True \<and>
     validateTransformation E (board_at b 1) (move_at m 1) (board_at b 2) (calculateSeed E g 2) = Inr True \<and>
     validateTransformation E (board_at b 2) (move_at m 2) (board_at b 3) (calculateSeed E g 3) = Inr True"
      by (simp only: checkTransformations_ok)
    with ct Inr sp show ?thesis
      by (auto simp: startGame_def Let_def confirmMoves_1 [unfolded One_nat_def] started_def)
  qed
qed





lemma play_Inr_iff:
  "play E sender bn s g mv rb = Inr s' \<longleftrightarrow>
     correctGameId sender g \<and>
     validateTransformation E (board (state s g)) mv rb
       (calculateSeed E g (ucast (nextMove (state s g)))) = Inr True \<and>
     nextMove (state s g) \<noteq> - 1 \<and>
     s' = played sender bn s g mv rb"
proof (cases "require_board (validateTransformation E (board (state s g)) mv rb
       (calculateSeed E g (ucast (nextMove (state s g)))))")
  case (Inl e)
  then have "validateTransformation E (board (state s g)) mv rb
       (calculateSeed E g (ucast (nextMove (state s g)))) \<noteq> Inr True"
    by (auto simp: require_board_def)
  with Inl show ?thesis by (simp add: play_def Let_def calculateSeed_def)
next
  case (Inr u)
  then have "validateTransformation E (board (state s g)) mv rb
       (calculateSeed E g (ucast (nextMove (state s g)))) = Inr True"
    by (simp add: require_board_ok)
  with Inr show ?thesis
    by (auto simp: play_def Let_def calculateSeed_def checked_inc_def played_def)
qed

subsection \<open>Invariants of transactions\<close>

lemma length_bytes_of_word: "length (bytes_of_word w) = 32"
  by (simp add: bytes_of_word_def)

lemma transact_play_gameHashOf: "gameHashOf (transact E s (Play a bn g mv rb)) = gameHashOf s"
proof (cases "play E a bn s g mv rb")
  case (Inl e)
  then show ?thesis by (simp add: transact_def)
next
  case (Inr s')
  then have "s' = played a bn s g mv rb" by (simp add: play_Inr_iff)
  with Inr show ?thesis by (simp add: transact_def played_def)
qed

lemma transact_keeps_gameHash:
  assumes "gameHashOf s h \<noteq> 0"
  shows "gameHashOf (transact E s c) h \<noteq> 0"
proof (cases c)
  case (StartGame a bn g b m)
  show ?thesis
  proof (cases "startGame E a bn s g b m")
    case (Inl e)
    with StartGame assms show ?thesis by (simp add: transact_def)
  next
    case (Inr s')
    then have "gameHashOf s (keccak256 E (encodePackedBoards b)) = 0"
      and "s' = started a bn s E g b m"
      by (simp_all add: startGame_Inr_iff)
    with assms have "gameHashOf s' h = gameHashOf s h"
      by (auto simp: started_def)
    with StartGame Inr assms show ?thesis by (simp add: transact_def)
  qed
next
  case (Play a bn g mv rb)
  with assms show ?thesis by (simp add: transact_play_gameHashOf)
qed

lemma transactAll_keeps_gameHash:
  "gameHashOf s h \<noteq> 0 \<Longrightarrow> gameHashOf (transactAll E s cs) h \<noteq> 0"
  unfolding transactAll_def
  by (induction cs arbitrary: s) (simp_all add: transact_keeps_gameHash)

lemma started_keeps_confirmed:
  "moveConfirmed s g' n \<Longrightarrow> moveConfirmed (started a bn s E g b m) g' n"
  by (auto simp: started_def)

lemma played_keeps_confirmed:
  "moveConfirmed s g' n \<Longrightarrow> moveConfirmed (played a bn s g mv rb) g' n"
  by (auto simp: played_def)

lemma transact_keeps_confirmed:
  assumes "moveConfirmed s g' n"
  shows "moveConfirmed (transact E s c) g' n"
proof (cases c)
  case (StartGame a bn g b m)
  show ?thesis
  proof (cases "startGame E a bn s g b m")
    case (Inl e)
    with StartGame assms show ?thesis by (simp add: transact_def)
  next
    case (Inr s')
    then have "s' = started a bn s E g b m" by (simp add: startGame_Inr_iff)
    with StartGame Inr assms show ?thesis
      by (simp add: transact_def started_keeps_confirmed)
  qed
next
  case (Play a bn g mv rb)
  show ?thesis
  proof (cases "play E a bn s g mv rb")
    case (Inl e)
    with Play assms show ?thesis by (simp add: transact_def)
  next
    case (Inr s')
    then have "s' = played a bn s g mv rb" by (simp add: play_Inr_iff)
    with Play Inr assms show ?thesis
      by (simp add: transact_def played_keeps_confirmed)
  qed
qed

lemma transactAll_keeps_confirmed:
  "moveConfirmed s g' n \<Longrightarrow> moveConfirmed (transactAll E s cs) g' n"
  unfolding transactAll_def
  by (induction cs arbitrary: s) (simp_all add: transact_keeps_confirmed)



lemma principal_of_packed:
  "principal (push_bit 96 (ucast (a :: address)) OR ucast (low :: 96 word)) = a"
  unfolding principal_def
  by (rule bit_word_eqI) (auto simp: bit_simps dest: bit_imp_le_length)

lemma unat_inc_uint120: "n \<noteq> - 1 \<Longrightarrow> unat (n + 1 :: uint120) = unat n + 1"
  using unatSuc [of n] by (simp add: add.commute add_eq_0_iff)

section \<open>Properties of the board model\<close>

lemma bit_small_nat: "e < 256 \<Longrightarrow> bit (e :: nat) k \<Longrightarrow> k < 8"
proof (rule ccontr)
  assume e: "e < 256" and b: "bit e k" and "\<not> k < 8"
  then have "(2::nat) ^ 8 \<le> 2 ^ k" by (intro power_increasing) auto
  with e have "e < 2 ^ k" by simp
  then have "e div 2 ^ k = 0" by simp
  with b show False by (simp add: bit_iff_odd)
qed

lemma field_mask: "(255 :: uint128) = mask 8"
  by (simp add: mask_eq_exp_minus_1)

lemma field_after_write:
  assumes "e < 256" "i < 16" "j < 16"
  shows "take_bit 8 (drop_bit (8 * j) ((b AND NOT (push_bit (8 * i) 255)) OR push_bit (8 * i) (of_nat e)) :: uint128) =
           (if i = j then of_nat e else take_bit 8 (drop_bit (8 * j) b))"
proof (cases "i = j")
  case True
  show ?thesis unfolding field_mask using assms True
    by (intro bit_word_eqI) (auto simp: bit_simps dest: bit_small_nat)
next
  case False
  show ?thesis unfolding field_mask using assms False
    by (intro bit_word_eqI) (auto simp: bit_simps dest: bit_small_nat)
qed

lemma tileAt_setTile:
  assumes "e < 256" "i < 16" "j < 16"
  shows "tileAt ((b AND NOT (push_bit (8 * i) 255)) OR push_bit (8 * i) (of_nat e)) j =
           (if i = j then e else tileAt b j)"
proof -
  from assms(1) have "unat (of_nat e :: uint128) = e"
    by (simp add: unat_of_nat)
  then show ?thesis
    by (simp only: tileAt_def field_after_write [OF assms] if_distrib [of unat] cong: if_cong)
qed







lemma setTile_Inr: "setTile b i e = Inr b' \<Longrightarrow> e < 256"
  by (simp add: setTile_def split: if_splits)

lemma tileAt_after_setTile:
  "setTile b i e = Inr b' \<Longrightarrow> i < 16 \<Longrightarrow> j < 16 \<Longrightarrow>
     tileAt b' j = (if i = j then e else tileAt b j)"
  by (auto simp: setTile_def tileAt_setTile split: if_splits)







subsection \<open>Legal moves\<close>














lemma board_eqI:
  assumes "\<And>j. j < 16 \<Longrightarrow> tileAt a j = tileAt b j"
  shows "a = b"
proof (rule bit_word_eqI)
  fix n assume n: "n < LENGTH(128)"
  then have j: "n div 8 < 16" by simp
  from assms [OF j] have "take_bit 8 (drop_bit (8 * (n div 8)) a) = take_bit 8 (drop_bit (8 * (n div 8)) b)"
    by (simp add: tileAt_def word_unat_eq_iff)
  then have "bit (take_bit 8 (drop_bit (8 * (n div 8)) a)) (n mod 8) =
      bit (take_bit 8 (drop_bit (8 * (n div 8)) b)) (n mod 8)" by simp
  then show "bit a n = bit b n"
    by (simp add: bit_simps)
qed

subsection \<open>The empty board and validated boards\<close>

text \<open>No move changes the all-zero board, so no transition from it validates; and a
  board that validates holds the spawned tile, so it is never all-zero.\<close>

lemma slideLine_zeros: "slideLine [0, 0, 0, 0] = [0, 0, 0, 0]"
  by (simp add: slideLine_def)

lemma tileAt_zero: "tileAt 0 i = 0"
  by (simp add: tileAt_def)

lemma setTile_zero: "setTile 0 i 0 = Inr 0"
  by (simp add: setTile_def)

lemma simulateMove_zero: "simulateMove 0 mv = Inr (0, False, [0..<16])"
proof -
  have u4: "[0..<4] = [0, 1, 2, 3]" by (simp add: upt_rec)
  have "setTiles 0 (slidCells 0 mv) = Inr 0"
    unfolding slidCells_def u4
    by (cases mv) (simp_all add: tileAt_zero slideLine_zeros setTile_zero)
  then show ?thesis
    by (simp add: simulateMove_def tileAt_zero emptyCells_def isEmpty_def list_ex_iff)
qed

lemma validateTransition_zero: "validateTransition spawnsFour 0 mv R seed = Inr False"
  by (simp add: validateTransition_def simulateMove_zero)

lemma validated_board_nonzero:
  assumes "validateTransition spawnsFour B mv R seed = Inr True"
  shows "R \<noteq> 0"
proof -
  from assms obtain post i e where
    spawn: "chooseSpawn spawnsFour post seed = Inr (i, e)" and
    wr: "setTile post i e = Inr R"
    by (auto simp: validateTransition_def split: sum.splits prod.splits if_splits)
  from spawn have room: "emptyCells post \<noteq> []"
    and i: "i = emptyCells post ! (unat seed mod length (emptyCells post))"
    and e: "e = (if spawnsFour seed then 2 else 1)"
    by (auto simp: chooseSpawn_def Let_def split: if_splits)
  from room have "unat seed mod length (emptyCells post) < length (emptyCells post)" by simp
  then have "i \<in> set (emptyCells post)" unfolding i by (rule nth_mem)
  then have "i < 16" by (simp add: emptyCells_def)
  from tileAt_after_setTile [OF wr this this] e have "tileAt R i \<noteq> 0" by simp
  then show ?thesis by (auto simp: tileAt_zero)
qed

section \<open>The claims\<close>

subsection \<open>The concrete run\<close>

lemma principal_aliceGame: "principal aliceGame = alice"
  unfolding aliceGame_def by (rule principal_of_packed)

lemma principal_aliceGame2: "principal aliceGame2 = alice"
  unfolding aliceGame2_def by (rule principal_of_packed)

lemma length_encodePackedBoards: "length (encodePackedBoards b) = 128"
  by (cases b) (simp add: length_bytes_of_word)

lemma run_start:
  "startGame laxExternals alice 9 emptyLedger aliceGame openingBoards openingMoves = Inr afterStart"
  by (simp add: startGame_Inr_iff afterStart_def correctGameId_def principal_aliceGame
        laxExternals_def emptyLedger_def zeroGameState_def openingBoards_def openingMoves_def)

lemma afterStart_record:
  "state afterStart aliceGame = \<lparr>move = 2, nextMove = 4, board = 4\<rparr>"
  by (simp add: afterStart_def started_def openingBoards_def openingMoves_def)

lemma run_play: "play laxExternals alice 10 afterStart aliceGame 3 5 = Inr afterPlay"
  by (simp add: play_Inr_iff afterPlay_def correctGameId_def principal_aliceGame
        afterStart_record laxExternals_def)


subsection \<open>Soundness of transition validation\<close>










subsection \<open>Seed consistency\<close>

text \<open>Claim C2. \<open>calculateSeed\<close> is the hash of the 64 bytes made of the identifier
  followed by the 256-bit move number; \<open>play\<close> validates with exactly this seed at the
  stored next move number, and \<open>startGame\<close> validates its three opening moves with exactly
  this seed at the move numbers 1, 2 and 3.\<close>

theorem seed_consistency:
  "calculateSeed E gameId n = seedFor E gameId n \<and>
   length (bytes_of_word gameId @ bytes_of_word n) = 64 \<and>
   ((\<exists>s'. play E sender bn s gameId mv rb = Inr s') \<longleftrightarrow>
      correctGameId sender gameId \<and>
      validateTransformation E (latestBoard s gameId) mv rb
        (calculateSeed E gameId (ucast (nextMoveOf s gameId))) = Inr True \<and>
      nextMoveOf s gameId \<noteq> - 1) \<and>
   ((\<exists>s'. startGame E sender bn s gameId b m = Inr s') \<longleftrightarrow>
      correctGameId sender gameId \<and> latestBoard s gameId = 0 \<and>
      gameHashOf s (keccak256 E (encodePackedBoards b)) = 0 \<and>
      validateStartPosition E (board_at b 0) = Inr True \<and>
      validateTransformation E (board_at b 0) (move_at m 0) (board_at b 1)
        (calculateSeed E gameId 1) = Inr True \<and>
      validateTransformation E (board_at b 1) (move_at m 1) (board_at b 2)
        (calculateSeed E gameId 2) = Inr True \<and>
      validateTransformation E (board_at b 2) (move_at m 2) (board_at b 3)
        (calculateSeed E gameId 3) = Inr True)"
proof -
  have 1: "calculateSeed E gameId n = seedFor E gameId n"
    by (simp add: calculateSeed_def seedFor_def encodePacked2_def)
  have 2: "length (bytes_of_word gameId @ bytes_of_word n) = 64"
    by (simp add: length_bytes_of_word)
  have 3: "(\<exists>s'. play E sender bn s gameId mv rb = Inr s') \<longleftrightarrow>
      correctGameId sender gameId \<and>
      validateTransformation E (latestBoard s gameId) mv rb
        (calculateSeed E gameId (ucast (nextMoveOf s gameId))) = Inr True \<and>
      nextMoveOf s gameId \<noteq> - 1"
    by (simp add: play_Inr_iff latestBoard_def nextMoveOf_def)
  have 4: "(\<exists>s'. startGame E sender bn s gameId b m = Inr s') \<longleftrightarrow>
      correctGameId sender gameId \<and> latestBoard s gameId = 0 \<and>
      gameHashOf s (keccak256 E (encodePackedBoards b)) = 0 \<and>
      validateStartPosition E (board_at b 0) = Inr True \<and>
      validateTransformation E (board_at b 0) (move_at m 0) (board_at b 1)
        (calculateSeed E gameId 1) = Inr True \<and>
      validateTransformation E (board_at b 1) (move_at m 1) (board_at b 2)
        (calculateSeed E gameId 2) = Inr True \<and>
      validateTransformation E (board_at b 2) (move_at m 2) (board_at b 3)
        (calculateSeed E gameId 3) = Inr True"
    by (simp add: startGame_Inr_iff latestBoard_def)
  from 1 2 3 4 show ?thesis by (intro conjI)
qed

text \<open>Under the externals of the concrete run the hash is the length of its input, so
  that every seed is 64; the move of \<open>alice\<close> after her start is validated with it.\<close>

theorem seed_consistency_witness:
  "calculateSeed laxExternals aliceGame 4 = 64 \<and>
   validateTransformation laxExternals (latestBoard afterStart aliceGame) 3 5
     (calculateSeed laxExternals aliceGame (ucast (nextMoveOf afterStart aliceGame))) = Inr True \<and>
   nextMoveOf afterStart aliceGame \<noteq> - 1"
  using run_play
    seed_consistency [where E = laxExternals and gameId = aliceGame and n = 4 and sender = alice
      and bn = 10 and s = afterStart and mv = 3 and rb = 5]
  by (simp add: seedFor_def laxExternals_def length_bytes_of_word)

subsection \<open>Identity enforcement\<close>

text \<open>Claim C4. A \<open>startGame\<close> or \<open>play\<close> by a caller that is not the principal in the upper
  160 bits of the identifier fails with \<open>GamePlayerInvalid\<close> (the error the specification
  calls \<open>WrongPlayer\<close>) and leaves the ledger unchanged, whatever the boards submitted; the
  identity check holds exactly for the decoded principal, whatever the lower 96 bits.\<close>

theorem identity_enforcement:
  "(sender \<noteq> principal gameId \<longrightarrow>
      startGame E sender bn s gameId b m = Inl GamePlayerInvalid \<and>
      transact E s (StartGame sender bn gameId b m) = s \<and>
      play E sender bn s gameId mv rb = Inl GamePlayerInvalid \<and>
      transact E s (Play sender bn gameId mv rb) = s) \<and>
   (correctGameId sender gameId \<longleftrightarrow> sender = principal gameId) \<and>
   principal (push_bit 96 (ucast player) OR ucast (low :: 96 word)) = player"
  by (simp add: startGame_def play_def transact_def correctGameId_def principal_of_packed)

text \<open>Address 2 calling on a game of \<open>alice\<close>.\<close>

theorem identity_enforcement_witness:
  "(2 :: address) \<noteq> principal aliceGame \<and>
   startGame laxExternals 2 9 emptyLedger aliceGame openingBoards openingMoves = Inl GamePlayerInvalid \<and>
   transact laxExternals emptyLedger (StartGame 2 9 aliceGame openingBoards openingMoves) = emptyLedger \<and>
   play laxExternals 2 10 afterStart aliceGame 3 5 = Inl GamePlayerInvalid \<and>
   transact laxExternals afterStart (Play 2 10 aliceGame 3 5) = afterStart"
proof -
  have ne: "(2 :: address) \<noteq> principal aliceGame"
    by (simp add: principal_aliceGame alice_def)
  from ne identity_enforcement [of 2 aliceGame laxExternals 9 emptyLedger openingBoards openingMoves]
    identity_enforcement [of 2 aliceGame laxExternals 10 afterStart _ _ 3 5]
  show ?thesis by simp
qed

subsection \<open>Atomicity on failure\<close>

text \<open>Claim C5. If any check of \<open>startGame\<close> (identity, unused identifier, unused opening
  hash, start position, one of the three transitions) or of \<open>play\<close> (identity, transition)
  fails, the call is rejected and the ledger after the transaction is the ledger before
  it: records, confirmation flags, opening hashes and the event log. The same holds for
  every rejected call.\<close>

theorem atomicity_on_failure:
  "(\<not> correctGameId sender gameId \<or> latestBoard s gameId \<noteq> 0 \<or>
    gameHashOf s (keccak256 E (encodePackedBoards b)) \<noteq> 0 \<or>
    validateStartPosition E (board_at b 0) \<noteq> Inr True \<or>
    validateTransformation E (board_at b 0) (move_at m 0) (board_at b 1)
      (calculateSeed E gameId 1) \<noteq> Inr True \<or>
    validateTransformation E (board_at b 1) (move_at m 1) (board_at b 2)
      (calculateSeed E gameId 2) \<noteq> Inr True \<or>
    validateTransformation E (board_at b 2) (move_at m 2) (board_at b 3)
      (calculateSeed E gameId 3) \<noteq> Inr True \<longrightarrow>
      (\<exists>e. startGame E sender bn s gameId b m = Inl e) \<and>
      transact E s (StartGame sender bn gameId b m) = s) \<and>
   (\<not> correctGameId sender gameId \<or>
    validateTransformation E (latestBoard s gameId) mv rb
      (calculateSeed E gameId (ucast (nextMoveOf s gameId))) \<noteq> Inr True \<longrightarrow>
      (\<exists>e. play E sender bn s gameId mv rb = Inl e) \<and>
      transact E s (Play sender bn gameId mv rb) = s) \<and>
   (run E s c = Inl err \<longrightarrow> transact E s c = s)"
proof (intro conjI impI)
  assume "\<not> correctGameId sender gameId \<or> latestBoard s gameId \<noteq> 0 \<or>
    gameHashOf s (keccak256 E (encodePackedBoards b)) \<noteq> 0 \<or>
    validateStartPosition E (board_at b 0) \<noteq> Inr True \<or>
    validateTransformation E (board_at b 0) (move_at m 0) (board_at b 1)
      (calculateSeed E gameId 1) \<noteq> Inr True \<or>
    validateTransformation E (board_at b 1) (move_at m 1) (board_at b 2)
      (calculateSeed E gameId 2) \<noteq> Inr True \<or>
    validateTransformation E (board_at b 2) (move_at m 2) (board_at b 3)
      (calculateSeed E gameId 3) \<noteq> Inr True"
  then have "\<not> (\<exists>s'. startGame E sender bn s gameId b m = Inr s')"
    by (auto simp: startGame_Inr_iff latestBoard_def)
  then obtain e where e: "startGame E sender bn s gameId b m = Inl e"
    by (cases "startGame E sender bn s gameId b m") auto
  then show "\<exists>e. startGame E sender bn s gameId b m = Inl e" ..
  from e show "transact E s (StartGame sender bn gameId b m) = s"
    by (simp add: transact_def)
next
  assume "\<not> correctGameId sender gameId \<or>
    validateTransformation E (latestBoard s gameId) mv rb
      (calculateSeed E gameId (ucast (nextMoveOf s gameId))) \<noteq> Inr True"
  then have "\<not> (\<exists>s'. play E sender bn s gameId mv rb = Inr s')"
    by (auto simp: play_Inr_iff latestBoard_def nextMoveOf_def)
  then obtain e where e: "play E sender bn s gameId mv rb = Inl e"
    by (cases "play E sender bn s gameId mv rb") auto
  then show "\<exists>e. play E sender bn s gameId mv rb = Inl e" ..
  from e show "transact E s (Play sender bn gameId mv rb) = s"
    by (simp add: transact_def)
next
  assume "run E s c = Inl err"
  then show "transact E s c = s" by (simp add: transact_def)
qed


lemma aliceGame_nonzero: "aliceGame \<noteq> 0"
proof
  assume "aliceGame = 0"
  then have "principal aliceGame = principal 0" by simp
  moreover have "principal 0 = 0" by (simp add: principal_def)
  ultimately have "alice = 0" by (simp only: principal_aliceGame)
  then show False by (simp add: alice_def)
qed

lemma aliceGame_distinct: "aliceGame2 \<noteq> aliceGame"
proof
  assume "aliceGame2 = aliceGame"
  then have "bit aliceGame2 0 = bit aliceGame 0" by simp
  then show False by (simp add: aliceGame_def aliceGame2_def bit_simps)
qed

text \<open>A \<open>play\<close> that claims the stored board as its result, and a \<open>startGame\<close> whose second
  board repeats the first.\<close>

theorem atomicity_on_failure_witness:
  "validateTransformation laxExternals (latestBoard afterStart aliceGame) 3 4
      (calculateSeed laxExternals aliceGame (ucast (nextMoveOf afterStart aliceGame))) \<noteq> Inr True \<and>
   (\<exists>e. play laxExternals alice 10 afterStart aliceGame 3 4 = Inl e) \<and>
   transact laxExternals afterStart (Play alice 10 aliceGame 3 4) = afterStart \<and>
   validateTransformation laxExternals (board_at (1, 1, 3, 4) 0) (move_at openingMoves 0)
      (board_at (1, 1, 3, 4) 1) (calculateSeed laxExternals aliceGame 1) \<noteq> Inr True \<and>
   (\<exists>e. startGame laxExternals alice 9 emptyLedger aliceGame (1, 1, 3, 4) openingMoves = Inl e) \<and>
   transact laxExternals emptyLedger (StartGame alice 9 aliceGame (1, 1, 3, 4) openingMoves) = emptyLedger"
proof -
  have p: "validateTransformation laxExternals (latestBoard afterStart aliceGame) 3 4
      (calculateSeed laxExternals aliceGame (ucast (nextMoveOf afterStart aliceGame))) \<noteq> Inr True"
    by (simp add: laxExternals_def latestBoard_def afterStart_record)
  have q: "validateTransformation laxExternals (board_at (1, 1, 3, 4) 0) (move_at openingMoves 0)
      (board_at (1, 1, 3, 4) 1) (calculateSeed laxExternals aliceGame 1) \<noteq> Inr True"
    by (simp add: laxExternals_def)
  from p q
    atomicity_on_failure [where sender = alice and gameId = aliceGame and s = afterStart
      and E = laxExternals and mv = 3 and rb = 4 and bn = 10]
    atomicity_on_failure [where sender = alice and gameId = aliceGame and s = emptyLedger
      and E = laxExternals and b = "(1, 1, 3, 4)" and m = openingMoves and bn = 9]
  show ?thesis by simp
qed

subsection \<open>Monotonic move numbers\<close>

text \<open>Claim C6. After a successful \<open>startGame\<close> the next move number of the game is 4 and
  its board is the fourth opening board; after a successful \<open>play\<close> the next move number
  is larger by exactly one and the board is the claimed result board.\<close>

theorem monotonic_move_numbers:
  "(startGame E sender bn s gameId b m = Inr s' \<longrightarrow>
      nextMoveOf s' gameId = 4 \<and> latestBoard s' gameId = board_at b 3) \<and>
   (play E sender bn s gameId mv rb = Inr s'' \<longrightarrow>
      unat (nextMoveOf s'' gameId) = unat (nextMoveOf s gameId) + 1 \<and>
      latestBoard s'' gameId = rb)"
  by (simp add: startGame_Inr_iff play_Inr_iff started_def played_def nextMoveOf_def
        latestBoard_def unat_inc_uint120)

text \<open>The run of \<open>alice\<close>: a start, then one move.\<close>

theorem monotonic_move_numbers_witness:
  "startGame laxExternals alice 9 emptyLedger aliceGame openingBoards openingMoves = Inr afterStart \<and>
   nextMoveOf afterStart aliceGame = 4 \<and>
   latestBoard afterStart aliceGame = board_at openingBoards 3 \<and>
   play laxExternals alice 10 afterStart aliceGame 3 5 = Inr afterPlay \<and>
   unat (nextMoveOf afterPlay aliceGame) = unat (nextMoveOf afterStart aliceGame) + 1 \<and>
   latestBoard afterPlay aliceGame = 5"
  using run_start run_play
    monotonic_move_numbers [where E = laxExternals and sender = alice and bn = 9
      and s = emptyLedger and gameId = aliceGame and b = openingBoards and m = openingMoves
      and s' = afterStart]
    monotonic_move_numbers [where E = laxExternals and sender = alice and bn = 10
      and s = afterStart and gameId = aliceGame and mv = 3 and rb = 5 and s'' = afterPlay]
  by simp

subsection \<open>Confirmation flags\<close>

text \<open>Claim C7. After a successful \<open>startGame\<close> the moves 1, 2 and 3 of the game are
  confirmed; after a successful \<open>play\<close> the move number it validated is confirmed; and
  no transaction, and no sequence of transactions, clears a flag that is set.\<close>

theorem confirmation_flags:
  "(startGame E sender bn s gameId b m = Inr s' \<longrightarrow>
      isMoveConfirmed s' gameId 1 \<and> isMoveConfirmed s' gameId 2 \<and> isMoveConfirmed s' gameId 3) \<and>
   (play E sender bn s gameId mv rb = Inr s'' \<longrightarrow>
      isMoveConfirmed s'' gameId (ucast (nextMoveOf s gameId))) \<and>
   (isMoveConfirmed s g k \<longrightarrow>
      isMoveConfirmed (transact E s c) g k \<and> isMoveConfirmed (transactAll E s cs) g k)"
  by (simp add: startGame_Inr_iff play_Inr_iff started_def played_def nextMoveOf_def
        isMoveConfirmed_def transact_keeps_confirmed transactAll_keeps_confirmed)

text \<open>The run of \<open>alice\<close>; her flag for move 2 is still set after the move and a
  further \<open>startGame\<close> call.\<close>

theorem confirmation_flags_witness:
  "startGame laxExternals alice 9 emptyLedger aliceGame openingBoards openingMoves = Inr afterStart \<and>
   isMoveConfirmed afterStart aliceGame 1 \<and> isMoveConfirmed afterStart aliceGame 2 \<and>
   isMoveConfirmed afterStart aliceGame 3 \<and>
   play laxExternals alice 10 afterStart aliceGame 3 5 = Inr afterPlay \<and>
   isMoveConfirmed afterPlay aliceGame (ucast (nextMoveOf afterStart aliceGame)) \<and>
   isMoveConfirmed (transactAll laxExternals afterStart
      [Play alice 10 aliceGame 3 5, StartGame alice 11 aliceGame2 (5, 6, 7, 8) openingMoves])
      aliceGame 2"
proof -
  have a: "isMoveConfirmed afterStart aliceGame 1 \<and> isMoveConfirmed afterStart aliceGame 2 \<and>
      isMoveConfirmed afterStart aliceGame 3"
    using run_start
      confirmation_flags [where E = laxExternals and sender = alice and bn = 9
        and s = emptyLedger and gameId = aliceGame and b = openingBoards and m = openingMoves
        and s' = afterStart]
    by simp
  have b: "isMoveConfirmed afterPlay aliceGame (ucast (nextMoveOf afterStart aliceGame))"
    using run_play
      confirmation_flags [where E = laxExternals and sender = alice and bn = 10
        and s = afterStart and gameId = aliceGame and mv = 3 and rb = 5 and s'' = afterPlay]
    by simp
  have c: "isMoveConfirmed (transactAll laxExternals afterStart
      [Play alice 10 aliceGame 3 5, StartGame alice 11 aliceGame2 (5, 6, 7, 8) openingMoves])
      aliceGame 2"
    using a
      confirmation_flags [where E = laxExternals and s = afterStart and g = aliceGame and k = 2
        and cs = "[Play alice 10 aliceGame 3 5,
                   StartGame alice 11 aliceGame2 (5, 6, 7, 8) openingMoves]"]
    by simp
  from a b c run_start run_play show ?thesis by simp
qed


lemma hash_openingBoards:
  "keccak256 laxExternals (encodePackedBoards b) = 128"
  by (simp add: laxExternals_def length_encodePackedBoards)

lemma afterStart_gameHash: "gameHashOf afterStart 128 = aliceGame"
  by (simp add: afterStart_def started_def hash_openingBoards)

lemma afterPlay_record2: "state afterPlay aliceGame2 = zeroGameState"
  by (simp add: afterPlay_def played_def afterStart_def started_def emptyLedger_def
        aliceGame_distinct)

lemma transact_afterStart:
  "transactAll laxExternals afterStart [Play alice 10 aliceGame 3 5] = afterPlay"
  by (simp add: transactAll_def transact_def run_play)

subsection \<open>Replay rejection\<close>

text \<open>Claim C3, amended. Once a game with a non-zero identifier has been started with
  an opening sequence, every later \<open>startGame\<close> with the same four boards is rejected and
  changes nothing, whatever its identifier, caller and moves and whatever was called in
  between. The error is \<open>GamePlayed\<close> when the caller is the principal of the later
  identifier and the board stored for that identifier is zero; otherwise the two earlier
  checks report \<open>GamePlayerInvalid\<close> or \<open>GameIdUsed\<close>.\<close>

theorem replay_rejected:
  assumes "startGame E sender1 bn1 s0 gameId1 b m1 = Inr s1" and "gameId1 \<noteq> 0"
  shows "startGame E sender2 bn2 (transactAll E s1 cs) gameId2 b m2 =
           Inl (if \<not> correctGameId sender2 gameId2 then GamePlayerInvalid
                else if latestBoard (transactAll E s1 cs) gameId2 \<noteq> 0 then GameIdUsed
                else GamePlayed) \<and>
         transact E (transactAll E s1 cs) (StartGame sender2 bn2 gameId2 b m2) =
           transactAll E s1 cs"
proof -
  from assms(1) have "s1 = started sender1 bn1 s0 E gameId1 b m1"
    by (simp add: startGame_Inr_iff)
  with assms(2) have "gameHashOf s1 (keccak256 E (encodePackedBoards b)) \<noteq> 0"
    by (simp add: started_def)
  then have used: "gameHashOf (transactAll E s1 cs) (keccak256 E (encodePackedBoards b)) \<noteq> 0"
    by (rule transactAll_keeps_gameHash)
  then have "startGame E sender2 bn2 (transactAll E s1 cs) gameId2 b m2 =
           Inl (if \<not> correctGameId sender2 gameId2 then GamePlayerInvalid
                else if latestBoard (transactAll E s1 cs) gameId2 \<noteq> 0 then GameIdUsed
                else GamePlayed)"
    by (simp add: startGame_def latestBoard_def)
  then show ?thesis by (simp add: transact_def)
qed

text \<open>After her first game and a move, \<open>alice\<close> submits the same opening boards under a
  second identifier.\<close>

theorem replay_rejected_witness:
  "startGame laxExternals alice 9 emptyLedger aliceGame openingBoards openingMoves = Inr afterStart \<and>
   aliceGame \<noteq> 0 \<and>
   startGame laxExternals alice 11 afterPlay aliceGame2 openingBoards (2, 1, 0) = Inl GamePlayed \<and>
   transact laxExternals afterPlay (StartGame alice 11 aliceGame2 openingBoards (2, 1, 0)) = afterPlay"
  using replay_rejected [OF run_start aliceGame_nonzero, where cs = "[Play alice 10 aliceGame 3 5]"
      and ?sender2.0 = alice and ?bn2.0 = 11 and ?gameId2.0 = aliceGame2 and ?m2.0 = "(2, 1, 0)"]
    run_start aliceGame_nonzero
  by (simp add: transact_afterStart correctGameId_def principal_aliceGame2 latestBoard_def
        afterPlay_record2 zeroGameState_def)

text \<open>Claim C3 as first stated fails twice. The same opening boards submitted by address
  2 under an identifier of \<open>alice\<close> are rejected with \<open>GamePlayerInvalid\<close>, not
  \<open>GamePlayed\<close>. And a game started under the identifier 0 leaves the marker of its
  opening at zero, so that the same opening starts a second game.\<close>

theorem replay_rejected_counterexample:
  "startGame laxExternals alice 9 emptyLedger aliceGame openingBoards openingMoves = Inr afterStart \<and>
   startGame laxExternals 2 11 afterStart aliceGame2 openingBoards openingMoves = Inl GamePlayerInvalid \<and>
   startGame laxExternals 0 9 emptyLedger 0 openingBoards openingMoves = Inr zeroStart \<and>
   startGame laxExternals alice 11 zeroStart aliceGame openingBoards openingMoves =
     Inr (started alice 11 zeroStart laxExternals aliceGame openingBoards openingMoves)"
proof -
  have a: "startGame laxExternals 2 11 afterStart aliceGame2 openingBoards openingMoves =
      Inl GamePlayerInvalid"
    by (simp add: startGame_def correctGameId_def principal_aliceGame2 alice_def)
  have b: "startGame laxExternals 0 9 emptyLedger 0 openingBoards openingMoves = Inr zeroStart"
    by (simp add: startGame_Inr_iff zeroStart_def correctGameId_def principal_def
          laxExternals_def emptyLedger_def zeroGameState_def openingBoards_def openingMoves_def)
  have c: "startGame laxExternals alice 11 zeroStart aliceGame openingBoards openingMoves =
      Inr (started alice 11 zeroStart laxExternals aliceGame openingBoards openingMoves)"
    by (simp add: startGame_Inr_iff correctGameId_def principal_aliceGame hash_openingBoards)
       (simp add: zeroStart_def started_def emptyLedger_def zeroGameState_def aliceGame_nonzero
          laxExternals_def openingBoards_def openingMoves_def)
  from run_start a b c show ?thesis by simp
qed

subsection \<open>Identifier uniqueness\<close>




subsection \<open>Events of \<open>startGame\<close>\<close>

text \<open>Claim C9, amended. A successful \<open>startGame\<close> appends exactly two events to the log:
  the start event with the caller, the identifier and the fourth opening board, and one
  confirmation event with the caller, the identifier, the move number 3 and the block
  number. It emits no confirmation event for the moves 1 and 2.\<close>

theorem startGame_events:
  "startGame E sender bn s gameId b m = Inr s' \<Longrightarrow>
     events s' = events s @ [NewGame sender gameId (ucast (board_at b 3)),
                             MoveConfirmed sender gameId 3 bn]"
  by (simp add: startGame_Inr_iff started_def)

text \<open>The start of the game of \<open>alice\<close>.\<close>

theorem startGame_events_witness:
  "startGame laxExternals alice 9 emptyLedger aliceGame openingBoards openingMoves = Inr afterStart \<and>
   events afterStart = events emptyLedger @
     [NewGame alice aliceGame (ucast (board_at openingBoards 3)), MoveConfirmed alice aliceGame 3 9]"
  using startGame_events [OF run_start] run_start by simp

text \<open>Claim C9 as first stated fails: the start of the game of \<open>alice\<close> confirms the moves
  1 and 2, and its log holds no confirmation event for either.\<close>

theorem startGame_events_counterexample:
  "startGame laxExternals alice 9 emptyLedger aliceGame openingBoards openingMoves = Inr afterStart \<and>
   isMoveConfirmed afterStart aliceGame 1 \<and> isMoveConfirmed afterStart aliceGame 2 \<and>
   events afterStart = [NewGame alice aliceGame 4, MoveConfirmed alice aliceGame 3 9] \<and>
   MoveConfirmed alice aliceGame 1 9 \<notin> set (events afterStart) \<and>
   MoveConfirmed alice aliceGame 2 9 \<notin> set (events afterStart)"
  using run_start
  by (simp add: afterStart_def started_def emptyLedger_def isMoveConfirmed_def openingBoards_def)

subsection \<open>\<open>play\<close> on an identifier never started\<close>

text \<open>Claim C10. For an identifier whose record was never written, \<open>play\<close> by the
  principal of the identifier reads the all-zero record and succeeds or fails only by
  the validation of the transition from the all-zero board with the seed of move number
  0; on success the record has next move number 1. There is no error for a missing game.\<close>

theorem play_on_unstarted:
  assumes "state s gameId = zeroGameState" and "correctGameId sender gameId"
  shows "play E sender bn s gameId mv rb =
           (case validateTransformation E 0 mv rb (calculateSeed E gameId 0) of
              Inl e \<Rightarrow> Inl (BoardReverted e)
            | Inr ok \<Rightarrow>
                if ok then Inr (played sender bn s gameId mv rb) else Inl GameBoardInvalid) \<and>
         state (played sender bn s gameId mv rb) gameId = \<lparr>move = mv, nextMove = 1, board = rb\<rparr>"
  using assms
  by (simp add: play_def Let_def require_board_def checked_inc_def played_def zeroGameState_def
        calculateSeed_def split: sum.split)

text \<open>On the empty ledger, a \<open>play\<close> that changes the all-zero board and one that does
  not.\<close>

theorem play_on_unstarted_witness:
  "state emptyLedger aliceGame = zeroGameState \<and> correctGameId alice aliceGame \<and>
   play laxExternals alice 9 emptyLedger aliceGame 0 1 =
     Inr (played alice 9 emptyLedger aliceGame 0 1) \<and>
   play laxExternals alice 9 emptyLedger aliceGame 0 0 = Inl GameBoardInvalid \<and>
   state (played alice 9 emptyLedger aliceGame 0 1) aliceGame = \<lparr>move = 0, nextMove = 1, board = 1\<rparr>"
proof -
  have a: "state emptyLedger aliceGame = zeroGameState" by (simp add: emptyLedger_def)
  have b: "correctGameId alice aliceGame" by (simp add: correctGameId_def principal_aliceGame)
  from a b play_on_unstarted [OF a b, of laxExternals 9 0 1]
    play_on_unstarted [OF a b, of laxExternals 9 0 0]
  show ?thesis by (simp add: laxExternals_def)
qed

end
